theory Spec2Isabelle
  imports Main "HOL-Library.Word" "HOL-Library.Sublist"
begin

section \<open>pg_page_verification: checksum verification of a PostgreSQL base directory\<close>

text \<open>
  A shallow embedding of \<^verbatim>\<open>pg_page_verification.c\<close>.  The verbose printing is left
  out (it changes no result).  What the C standard leaves undefined is a value of
  its own, \<open>UndefinedBehaviour\<close>; \<open>NeverReturns\<close> is a loop that cannot end, and
  \<open>OutOfFuel\<close> a recursion deeper than the bound given to the model.
\<close>

datatype error = UndefinedBehaviour | NeverReturns | OutOfFuel

subsection \<open>What the PostgreSQL headers provide\<close>

text \<open>
  \<^verbatim>\<open>pg_config.h\<close>, \<^verbatim>\<open>storage/bufpage.h\<close> and \<^verbatim>\<open>storage/checksum_impl.h\<close> are
  not part of the repository.  Their contribution is a parameter of the model: the
  constants \<open>BLCKSZ\<close> and \<open>RELSEG_SIZE\<close>, the header field \<open>pd_checksum\<close> of a page,
  and the function \<open>pg_checksum_page\<close>.
\<close>

type_synonym byte = "8 word"
type_synonym BlockNumber = "32 word"

record pg_config =
  BLCKSZ :: nat
  RELSEG_SIZE :: "32 word"
  pd_checksum :: "byte list \<Rightarrow> 16 word"
  pg_checksum_page :: "byte list \<Rightarrow> BlockNumber \<Rightarrow> 16 word"

subsection \<open>The C library: \<open>isdigit\<close>, \<open>atoi\<close>, \<open>strstr\<close>, \<open>snprintf\<close>\<close>

text \<open>The digits are the bytes 48 to 57, the white space 32 and 9 to 13 (the C locale).\<close>

definition isdigit :: "char \<Rightarrow> bool" where
  "isdigit c = (48 \<le> (of_char c :: nat) \<and> (of_char c :: nat) \<le> 57)"

definition isspace :: "char \<Rightarrow> bool" where
  "isspace c = ((of_char c :: nat) = 32 \<or> (9 \<le> (of_char c :: nat) \<and> (of_char c :: nat) \<le> 13))"

fun digits_value :: "string \<Rightarrow> nat \<Rightarrow> nat" where
  "digits_value [] acc = acc"
| "digits_value (c # cs) acc =
     (if isdigit c then digits_value cs (10 * acc + (of_char c - 48)) else acc)"

text \<open>
  \<open>atoi\<close>: white space, an optional sign, then decimal digits up to the first other
  character.  A value that an \<open>int\<close> of 32 bits cannot hold is undefined in C.
\<close>

definition atoi :: "string \<Rightarrow> error + int" where
  "atoi nptr =
     (let s = dropWhile isspace nptr;
          neg = (s \<noteq> [] \<and> hd s = CHR ''-'');
          ds = (if s \<noteq> [] \<and> (hd s = CHR ''-'' \<or> hd s = CHR ''+'') then tl s else s);
          v = int (digits_value ds 0);
          r = (if neg then - v else v)
      in if - (2 ^ 31) \<le> r \<and> r < 2 ^ 31 then Inr r else Inl UndefinedBehaviour)"

text \<open>\<open>strstr haystack needle \<noteq> NULL\<close>.\<close>

fun strstr :: "string \<Rightarrow> string \<Rightarrow> bool" where
  "strstr [] needle = (needle = [])"
| "strstr (c # cs) needle = (prefix needle (c # cs) \<or> strstr cs needle)"

text \<open>\<open>snprintf(new_dirpath, size, "%s/%s", dirpath, d_name)\<close>: at most \<open>size - 1\<close> characters.\<close>

definition MAX_DIR_LENGTH :: nat where
  "MAX_DIR_LENGTH = 256"

definition snprintf_path :: "nat \<Rightarrow> string \<Rightarrow> string \<Rightarrow> string" where
  "snprintf_path n dirpath d_name = take (n - 1) (dirpath @ ''/'' @ d_name)"

subsection \<open>\<open>parse_segment_number\<close>\<close>

text \<open>
  The loop of \<open>parse_segment_number\<close>, from index \<open>segmentnumber\<close> downwards:
  \<open>None\<close> is the \<open>return 0\<close> taken when the index falls below 0, \<open>Some i\<close> the
  index of the first character that is not a digit.
\<close>

fun skip_digits :: "string \<Rightarrow> nat \<Rightarrow> nat option" where
  "skip_digits filename 0 = (if isdigit (filename ! 0) then None else Some 0)"
| "skip_digits filename (Suc k) =
     (if isdigit (filename ! Suc k) then skip_digits filename k else Some (Suc k))"

text \<open>
  An empty name makes the loop read \<open>filename[-1]\<close>: undefined.  The \<open>int\<close> from
  \<open>atoi\<close> is converted to the \<open>unsigned int\<close> the function returns.
\<close>

definition parse_segment_number :: "string \<Rightarrow> error + 32 word" where
  "parse_segment_number filename =
     (if filename = [] then Inl UndefinedBehaviour
      else case skip_digits filename (length filename - 1) of
             None \<Rightarrow> Inr 0
           | Some segmentnumber \<Rightarrow>
               (case atoi (drop (segmentnumber + 1) filename) of
                  Inl e \<Rightarrow> Inl e
                | Inr v \<Rightarrow> Inr (word_of_int v)))"

subsection \<open>\<open>is_page_corrupted\<close>\<close>

text \<open>
  \<open>segmentSize = RELSEG_SIZE * BLCKSZ\<close>, a product of two \<open>int\<close> constants stored in
  an \<open>unsigned int\<close> (only printed); the product is defined below \<open>2 ^ 31\<close>.
\<close>

definition segmentSize :: "pg_config \<Rightarrow> 32 word" where
  "segmentSize cfg = RELSEG_SIZE cfg * word_of_nat (BLCKSZ cfg)"

text \<open>
  The block number handed to \<open>pg_checksum_page\<close>, which the source prints as
  ``absolute blkno'': \<open>segmentBlockOffset + blkno\<close> with
  \<open>segmentBlockOffset = RELSEG_SIZE * segmentNumber\<close>, in 32 bits.
\<close>

definition absolute_blkno :: "pg_config \<Rightarrow> string \<Rightarrow> BlockNumber \<Rightarrow> error + BlockNumber" where
  "absolute_blkno cfg filename blkno =
     (case parse_segment_number filename of
        Inl e \<Rightarrow> Inl e
      | Inr segmentNumber \<Rightarrow>
          (let segmentBlockOffset = RELSEG_SIZE cfg * segmentNumber
           in Inr (segmentBlockOffset + blkno)))"

definition is_page_corrupted :: "pg_config \<Rightarrow> byte list \<Rightarrow> BlockNumber \<Rightarrow> string \<Rightarrow> error + bool" where
  "is_page_corrupted cfg page blkno filename =
     (case absolute_blkno cfg filename blkno of
        Inl e \<Rightarrow> Inl e
      | Inr absblk \<Rightarrow>
          (let checksum = pg_checksum_page cfg page absblk
           in Inr (pd_checksum cfg page \<noteq> 0 \<and> pd_checksum cfg page \<noteq> checksum)))"

subsection \<open>The file system the scan consumes\<close>

text \<open>
  The scan reads a file system that does not change while it runs.  A regular file is
  the outcomes of the successive \<open>read\<close> calls on it (after the last one, \<open>read\<close>
  returns 0) and whether \<open>open\<close> succeeds.  A directory is its entries in the order
  \<open>readdir\<close> lists them, with its read permission, which \<open>opendir\<close> needs, and its
  search permission, which \<open>chdir\<close> into it and every path through it need.
  Symbolic links, devices and sockets are \<open>OtherNode\<close>.  The current working
  directory is the one piece of process state the scan changes: a path from the root.
\<close>

datatype st_mode = S_IFREG | S_IFDIR | S_IFOTHER

definition S_ISDIR :: "st_mode \<Rightarrow> bool" where
  "S_ISDIR m = (m = S_IFDIR)"

definition S_ISREG :: "st_mode \<Rightarrow> bool" where
  "S_ISREG m = (m = S_IFREG)"

datatype read_result = ReadError | ReadBytes "byte list"

datatype node =
    RegularFile bool "read_result list"
  | Directory bool bool "(string \<times> node) list"
  | OtherNode

type_synonym path = "string list"

fun lookup :: "node \<Rightarrow> path \<Rightarrow> node option" where
  "lookup n [] = Some n"
| "lookup n (x # xs) =
     (case n of
        Directory readable searchable es \<Rightarrow>
          (case map_of es x of None \<Rightarrow> None | Some m \<Rightarrow> lookup m xs)
      | _ \<Rightarrow> None)"

text \<open>The components of a path name, split at \<open>/\<close>.\<close>

fun split_slash :: "string \<Rightarrow> string list" where
  "split_slash [] = [[]]"
| "split_slash (c # cs) =
     (if c = CHR ''/'' then [] # split_slash cs
      else (case split_slash cs of w # ws \<Rightarrow> (c # w) # ws | [] \<Rightarrow> [[c]]))"

text \<open>
  Path resolution from directory \<open>p\<close>: every step needs a directory to step from,
  and search permission on it unless the component is empty; an empty component and
  \<open>.\<close> stay, \<open>..\<close> goes up (the root is its own parent).
\<close>

fun walk :: "node \<Rightarrow> path \<Rightarrow> string list \<Rightarrow> path option" where
  "walk fs p [] = Some p"
| "walk fs p (c # cs) =
     (case lookup fs p of
        Some (Directory readable searchable es) \<Rightarrow>
          (if c = [] then walk fs p cs
           else if \<not> searchable then None
           else if c = ''.'' then walk fs p cs
           else if c = ''..'' then walk fs (butlast p) cs
           else if map_of es c = None then None
           else walk fs (p @ [c]) cs)
      | _ \<Rightarrow> None)"

definition resolve :: "node \<Rightarrow> path \<Rightarrow> string \<Rightarrow> node option" where
  "resolve fs cwd name =
     (if name = [] then None
      else case walk fs (if hd name = CHR ''/'' then [] else cwd) (split_slash name) of
             None \<Rightarrow> None
           | Some p \<Rightarrow> lookup fs p)"

text \<open>\<open>lstat\<close>: \<open>None\<close> is the failure, which leaves \<open>statbuf\<close> as it was.\<close>

definition lstat :: "node \<Rightarrow> path \<Rightarrow> string \<Rightarrow> st_mode option" where
  "lstat fs cwd name =
     (case resolve fs cwd name of
        None \<Rightarrow> None
      | Some (RegularFile openable reads) \<Rightarrow> Some S_IFREG
      | Some (Directory readable searchable es) \<Rightarrow> Some S_IFDIR
      | Some OtherNode \<Rightarrow> Some S_IFOTHER)"

text \<open>\<open>opendir\<close>, with the names the following \<open>readdir\<close> calls return.\<close>

definition opendir :: "node \<Rightarrow> path \<Rightarrow> string \<Rightarrow> string list option" where
  "opendir fs cwd dirpath =
     (case resolve fs cwd dirpath of
        Some (Directory readable searchable es) \<Rightarrow>
          (if readable then Some (''.'' # ''..'' # map fst es) else None)
      | _ \<Rightarrow> None)"

text \<open>
  \<open>chdir\<close>: the directory the path names, when it can be searched; \<open>None\<close> is the
  failure.  \<open>scan_directory\<close> drops the result: after a failure the working
  directory is the one it was.
\<close>

definition chdir :: "node \<Rightarrow> path \<Rightarrow> string \<Rightarrow> path option" where
  "chdir fs cwd dirpath =
     (if dirpath = [] then None
      else case walk fs (if hd dirpath = CHR ''/'' then [] else cwd) (split_slash dirpath) of
             None \<Rightarrow> None
           | Some p \<Rightarrow>
               (case lookup fs p of
                  Some (Directory readable searchable es) \<Rightarrow>
                    if searchable then Some p else None
                | _ \<Rightarrow> None))"

text \<open>
  \<open>open(filename, O_RDONLY)\<close>: the outcomes of the reads that follow, \<open>None\<close> when
  it fails.  A directory that can be read opens, and every \<open>read\<close> on it fails.
\<close>

definition open_rdonly :: "node \<Rightarrow> path \<Rightarrow> string \<Rightarrow> read_result list option" where
  "open_rdonly fs cwd filename =
     (case resolve fs cwd filename of
        Some (RegularFile openable reads) \<Rightarrow> if openable then Some reads else None
      | Some (Directory readable searchable es) \<Rightarrow>
          if readable then Some [ReadError] else None
      | _ \<Rightarrow> None)"

subsection \<open>\<open>scan_segmentfile\<close>\<close>

text \<open>
  The \<open>while\<close> loop of \<open>scan_segmentfile\<close> over the outcomes of \<open>read\<close>, and the
  \<open>if (n > 0)\<close> after it.  With \<open>BLCKSZ = 0\<close> the read at the end of the file would
  return \<open>BLCKSZ\<close> bytes for ever.
\<close>

fun read_pages :: "pg_config \<Rightarrow> string \<Rightarrow> read_result list \<Rightarrow> BlockNumber \<Rightarrow> 32 word \<Rightarrow> error + 32 word" where
  "read_pages cfg filename [] blkno corrupted =
     (if BLCKSZ cfg = 0 then Inl NeverReturns else Inr corrupted)"
| "read_pages cfg filename (ReadError # rest) blkno corrupted = Inr corrupted"
| "read_pages cfg filename (ReadBytes page # rest) blkno corrupted =
     (if length page = BLCKSZ cfg then
        (case is_page_corrupted cfg page blkno filename of
           Inl e \<Rightarrow> Inl e
         | Inr c \<Rightarrow>
             read_pages cfg filename rest (blkno + 1) (if c then corrupted + 1 else corrupted))
      else if 0 < length page then Inr (corrupted + 1)
      else Inr corrupted)"

text \<open>The parameter \<open>dirpath\<close> of the source is only printed.\<close>

definition scan_segmentfile :: "pg_config \<Rightarrow> node \<Rightarrow> path \<Rightarrow> string \<Rightarrow> error + 32 word" where
  "scan_segmentfile cfg fs cwd filename =
     (if strstr filename ''pg_internal.init'' then Inr 0
      else case open_rdonly fs cwd filename of
             None \<Rightarrow> Inr 1
           | Some reads \<Rightarrow> read_pages cfg filename reads 0 0)"

subsection \<open>\<open>scan_directory\<close>\<close>

text \<open>
  \<open>scan_directory\<close> returns the count and the working directory it leaves behind.
  \<open>scan_entries\<close> is its \<open>while ((dir = readdir(d)) != NULL)\<close> loop over the names
  still to come, with the local \<open>statbuf\<close> (\<open>None\<close> before the first successful
  \<open>lstat\<close>) and the running \<open>corrupt_pages_found\<close>.  The first argument bounds the
  depth of the recursion.
\<close>

fun scan_directory :: "nat \<Rightarrow> pg_config \<Rightarrow> node \<Rightarrow> path \<Rightarrow> string \<Rightarrow> error + (32 word \<times> path)"
  and scan_entries :: "nat \<Rightarrow> pg_config \<Rightarrow> node \<Rightarrow> string \<Rightarrow> string list \<Rightarrow> st_mode option \<Rightarrow> 32 word \<Rightarrow> path \<Rightarrow> error + (32 word \<times> path)"
where
  "scan_directory 0 cfg fs cwd dirpath = Inl OutOfFuel"
| "scan_directory (Suc fuel) cfg fs cwd dirpath =
     (case opendir fs cwd dirpath of
        None \<Rightarrow> Inr (0, cwd)
      | Some names \<Rightarrow>
          scan_entries fuel cfg fs dirpath names None 0
            (case chdir fs cwd dirpath of None \<Rightarrow> cwd | Some p \<Rightarrow> p))"
| "scan_entries fuel cfg fs dirpath [] statbuf corrupt_pages_found cwd =
     Inr (corrupt_pages_found, cwd)"
| "scan_entries fuel cfg fs dirpath (d_name # rest) statbuf corrupt_pages_found cwd =
     (let statbuf' = (case lstat fs cwd d_name of None \<Rightarrow> statbuf | Some m \<Rightarrow> Some m)
      in case statbuf' of
           None \<Rightarrow> Inl UndefinedBehaviour
         | Some st_mode \<Rightarrow>
             if S_ISDIR st_mode then
               (if d_name = ''.'' \<or> d_name = ''..''
                then scan_entries fuel cfg fs dirpath rest statbuf' corrupt_pages_found cwd
                else case scan_directory fuel cfg fs cwd
                            (snprintf_path MAX_DIR_LENGTH dirpath d_name) of
                       Inl e \<Rightarrow> Inl e
                     | Inr (n, cwd') \<Rightarrow>
                         scan_entries fuel cfg fs dirpath rest statbuf'
                           (corrupt_pages_found + n) cwd')
             else if S_ISREG st_mode then
               (case scan_segmentfile cfg fs cwd d_name of
                  Inl e \<Rightarrow> Inl e
                | Inr n \<Rightarrow>
                    scan_entries fuel cfg fs dirpath rest statbuf'
                      (corrupt_pages_found + n) cwd)
             else scan_entries fuel cfg fs dirpath rest statbuf' corrupt_pages_found cwd)"

subsection \<open>The specification's reading of the segment ordinal\<close>

text \<open>
  The specification takes the segment ordinal of a file name to be the value of its
  trailing run of decimal digits.  These definitions follow its words, to be compared
  with \<open>parse_segment_number\<close>.
\<close>

definition trailing_digits :: "string \<Rightarrow> string" where
  "trailing_digits name = rev (takeWhile isdigit (rev name))"

definition decimal_value :: "string \<Rightarrow> nat" where
  "decimal_value ds = foldl (\<lambda>a c. 10 * a + (of_char c - 48)) 0 ds"

definition spec_segment_ordinal :: "string \<Rightarrow> nat" where
  "spec_segment_ordinal name = decimal_value (trailing_digits name)"

subsection \<open>Concrete inputs\<close>

text \<open>
  A configuration with PostgreSQL's default sizes (pages of 8192 bytes, 131072 pages
  in a segment), the checksum field at bytes 8 and 9 of the page, low byte first, and
  a stand-in for the checksum function.
\<close>

definition example_config :: pg_config where
  "example_config =
     \<lparr> BLCKSZ = 8192,
       RELSEG_SIZE = 131072,
       pd_checksum = (\<lambda>page. case drop 8 page of
                                 lo # hi # _ \<Rightarrow> ucast lo + 256 * ucast hi
                               | _ \<Rightarrow> 0),
       pg_checksum_page = (\<lambda>page blkno. ucast blkno + 1) \<rparr>"

text \<open>A page of 8192 bytes with the given two bytes in its checksum field.\<close>

definition example_page :: "byte \<Rightarrow> byte \<Rightarrow> byte list" where
  "example_page lo hi = replicate 8 0 @ [lo, hi] @ replicate 8182 0"

text \<open>
  \<^verbatim>\<open>/base\<close> with a database directory \<^verbatim>\<open>1\<close>, which holds an empty segment, and a
  file \<^verbatim>\<open>x\<close> of one byte, listed in both orders.
\<close>

definition subdir_first_tree :: node where
  "subdir_first_tree =
     Directory True True
       [(''base'', Directory True True
          [(''1'', Directory True True [(''16384'', RegularFile True [])]),
           (''x'', RegularFile True [ReadBytes [0]])])]"

definition file_first_tree :: node where
  "file_first_tree =
     Directory True True
       [(''base'', Directory True True
          [(''x'', RegularFile True [ReadBytes [0]]),
           (''1'', Directory True True [(''16384'', RegularFile True [])])])]"

text \<open>
  \<^verbatim>\<open>/base\<close> with the database directories \<^verbatim>\<open>1\<close> and \<^verbatim>\<open>2\<close>, in both orders:
  \<^verbatim>\<open>/base/1\<close> holds a relation file of one byte that is named \<^verbatim>\<open>2\<close> as well, and
  \<^verbatim>\<open>/base/2\<close> an empty segment.
\<close>

definition oid_clash_tree :: node where
  "oid_clash_tree =
     Directory True True
       [(''base'', Directory True True
          [(''1'', Directory True True [(''2'', RegularFile True [ReadBytes [0]])]),
           (''2'', Directory True True [(''16384'', RegularFile True [])])])]"

definition oid_clash_tree_reversed :: node where
  "oid_clash_tree_reversed =
     Directory True True
       [(''base'', Directory True True
          [(''2'', Directory True True [(''16384'', RegularFile True [])]),
           (''1'', Directory True True [(''2'', RegularFile True [ReadBytes [0]])])])]"

text \<open>
  \<^verbatim>\<open>/base/1\<close> with a free-space-map and a visibility-map file of one byte each, a
  file whose first read fails, a file that cannot be opened, a copy of the cache
  file, and a segment of one byte.
\<close>

definition files_tree :: node where
  "files_tree =
     Directory True True
       [(''base'', Directory True True
          [(''1'', Directory True True
             [(''16384_fsm'', RegularFile True [ReadBytes [0]]),
              (''16384_vm'', RegularFile True [ReadBytes [0]]),
              (''16385'', RegularFile True [ReadError]),
              (''16386'', RegularFile False []),
              (''pg_internal.init.bak'', RegularFile False [ReadBytes [0]]),
              (''16387'', RegularFile True [ReadBytes [0]])])])]"

text \<open>
  \<^verbatim>\<open>/base\<close> with the database directories \<^verbatim>\<open>1\<close>, which holds an empty relation file
  named \<^verbatim>\<open>2\<close>, and \<^verbatim>\<open>2\<close>, which is empty, and after them a directory \<^verbatim>\<open>locked\<close>
  without any permission; and the same tree without \<^verbatim>\<open>locked\<close>.
\<close>

definition locked_last_tree :: node where
  "locked_last_tree =
     Directory True True
       [(''base'', Directory True True
          [(''1'', Directory True True [(''2'', RegularFile True [])]),
           (''2'', Directory True True []),
           (''locked'', Directory False False [(''16384'', RegularFile True [])])])]"

definition locked_absent_tree :: node where
  "locked_absent_tree =
     Directory True True
       [(''base'', Directory True True
          [(''1'', Directory True True [(''2'', RegularFile True [])]),
           (''2'', Directory True True [])])]"

text \<open>
  \<^verbatim>\<open>/base\<close> with a directory \<^verbatim>\<open>ro\<close> that can be read and not searched (mode 444),
  holding a file of one byte.
\<close>

definition read_only_tree :: node where
  "read_only_tree =
     Directory True True
       [(''base'', Directory True True
          [(''ro'', Directory True False [(''16384'', RegularFile True [ReadBytes [0]])])])]"

text \<open>\<^verbatim>\<open>/base/1\<close> with a directory \<^verbatim>\<open>a\<close> of its own.\<close>

definition nested_tree :: node where
  "nested_tree =
     Directory True True
       [(''base'', Directory True True
          [(''1'', Directory True True [(''a'', Directory True True [])])])]"

text \<open>
  \<^verbatim>\<open>/base/1/16384\<close> with one page whose checksum field is unset, then 8191 bytes; a
  page with a wrong checksum stands behind them, for a read that never comes.
\<close>

definition short_read_tree :: node where
  "short_read_tree =
     Directory True True
       [(''base'', Directory True True
          [(''1'', Directory True True
             [(''16384'', RegularFile True
                [ReadBytes (example_page 0 0), ReadBytes (replicate 8191 0),
                 ReadBytes (example_page 4 0)])])])]"

section \<open>Page classification and block addressing\<close>

lemma is_page_corrupted_eq:
  "absolute_blkno cfg filename blkno = Inr B \<Longrightarrow>
   is_page_corrupted cfg page blkno filename =
     Inr (pd_checksum cfg page \<noteq> 0 \<and> pd_checksum cfg page \<noteq> pg_checksum_page cfg page B)"
  by (simp add: is_page_corrupted_def)

lemma absolute_blkno_eq:
  "parse_segment_number filename = Inr ordinal \<Longrightarrow>
   absolute_blkno cfg filename i = Inr (RELSEG_SIZE cfg * ordinal + i)"
  by (simp add: absolute_blkno_def)

lemma example_pd_checksum:
  "pd_checksum example_config (example_page lo hi) = ucast lo + 256 * ucast hi"
  by (simp add: example_config_def example_page_def)

lemma example_absolute_blkno: "absolute_blkno example_config ''16384.1'' 2 = Inr 131074"
  by (simp add: absolute_blkno_def example_config_def parse_segment_number_def atoi_def
      isdigit_def isspace_def)

text \<open>
  Claim C1.  A page read at absolute block number \<open>B\<close> whose stored checksum field is
  0 is classified not corrupted; a page whose stored checksum is not 0 is classified
  corrupted exactly when the stored checksum differs from the checksum recomputed from
  the page and \<open>B\<close>.
\<close>

theorem is_page_corrupted_classification:
  assumes "absolute_blkno cfg filename blkno = Inr B"
  shows "(pd_checksum cfg page = 0 \<longrightarrow> is_page_corrupted cfg page blkno filename = Inr False) \<and>
         (pd_checksum cfg page \<noteq> 0 \<longrightarrow>
            is_page_corrupted cfg page blkno filename =
              Inr (pd_checksum cfg page \<noteq> pg_checksum_page cfg page B))"
  using assms by (simp add: is_page_corrupted_eq)

text \<open>
  Page 2 of \<^verbatim>\<open>16384.1\<close> is block 131074, whose stand-in checksum is 3: a page storing 0
  and a page storing 3 pass, a page storing 4 is corrupted.
\<close>

theorem is_page_corrupted_classification_witness:
  "absolute_blkno example_config ''16384.1'' 2 = Inr 131074 \<and>
   pd_checksum example_config (example_page 0 0) = 0 \<and>
   is_page_corrupted example_config (example_page 0 0) 2 ''16384.1'' = Inr False \<and>
   pd_checksum example_config (example_page 3 0) \<noteq> 0 \<and>
   is_page_corrupted example_config (example_page 3 0) 2 ''16384.1'' = Inr False \<and>
   pd_checksum example_config (example_page 4 0) \<noteq> 0 \<and>
   is_page_corrupted example_config (example_page 4 0) 2 ''16384.1'' = Inr True"
proof -
  have c: "pg_checksum_page example_config p 131074 = 3" for p
    by (simp add: example_config_def)
  show ?thesis
    using is_page_corrupted_classification [OF example_absolute_blkno, of "example_page 0 0"]
      is_page_corrupted_classification [OF example_absolute_blkno, of "example_page 3 0"]
      is_page_corrupted_classification [OF example_absolute_blkno, of "example_page 4 0"]
    by (simp add: example_absolute_blkno example_pd_checksum c)
qed

section \<open>The segment ordinal\<close>

lemma skip_digits_unfold:
  "skip_digits f i =
     (if isdigit (f ! i) then (case i of 0 \<Rightarrow> None | Suc k \<Rightarrow> skip_digits f k) else Some i)"
  by (cases i) simp_all

lemma skip_digits_append: "i < length f \<Longrightarrow> skip_digits (f @ g) i = skip_digits f i"
  by (induction i) (simp_all add: nth_append)

lemma skip_digits_all_digits:
  "i < length f \<Longrightarrow> \<forall>c\<in>set f. isdigit c \<Longrightarrow> skip_digits f i = None"
  by (induction i) simp_all

lemma skip_digits_run:
  "\<not> isdigit c \<Longrightarrow> \<forall>d\<in>set ds. isdigit d \<Longrightarrow>
   skip_digits (pre @ c # ds) (length pre + length ds) = Some (length pre)"
proof (induction ds rule: rev_induct)
  case Nil
  then show ?case by (simp add: skip_digits_unfold [of _ "length pre"])
next
  case (snoc d ds)
  have "skip_digits (pre @ c # ds @ [d]) (Suc (length pre + length ds))
        = skip_digits ((pre @ c # ds) @ [d]) (length pre + length ds)"
    using snoc.prems by (simp add: nth_append)
  also have "\<dots> = skip_digits (pre @ c # ds) (length pre + length ds)"
    by (rule skip_digits_append) simp
  finally show ?case using snoc by simp
qed

lemma digits_value_foldl:
  "\<forall>d\<in>set ds. isdigit d \<Longrightarrow>
   digits_value ds acc = foldl (\<lambda>a c. 10 * a + (of_char c - 48)) acc ds"
  by (induction ds arbitrary: acc) simp_all

lemma isdigit_not_space_sign:
  "isdigit c \<Longrightarrow> \<not> isspace c \<and> c \<noteq> CHR ''-'' \<and> c \<noteq> CHR ''+''"
  by (auto simp: isdigit_def isspace_def)

lemma atoi_digits:
  assumes "\<forall>d\<in>set ds. isdigit d" "decimal_value ds < 2 ^ 31"
  shows "atoi ds = Inr (int (decimal_value ds))"
proof -
  have s: "dropWhile isspace ds = ds"
    using assms(1) isdigit_not_space_sign by (cases ds) auto
  have n0: "\<not> (ds \<noteq> [] \<and> hd ds = CHR ''-'')"
    using assms(1) isdigit_not_space_sign by (cases ds) auto
  have n1: "\<not> (ds \<noteq> [] \<and> (hd ds = CHR ''-'' \<or> hd ds = CHR ''+''))"
    using assms(1) isdigit_not_space_sign by (cases ds) auto
  have v: "digits_value ds 0 = decimal_value ds"
    using assms(1) by (simp add: digits_value_foldl decimal_value_def)
  have "int (decimal_value ds) < 2 ^ 31"
    using assms(2) by (metis of_nat_less_iff of_nat_numeral of_nat_power)
  then show ?thesis
    by (simp add: atoi_def Let_def s n0 n1 v)
qed

lemma split_trailing_digits:
  assumes "\<exists>c\<in>set name. \<not> isdigit c"
  obtains pre c where "name = pre @ c # trailing_digits name" "\<not> isdigit c"
proof -
  let ?t = "takeWhile isdigit (rev name)" and ?d = "dropWhile isdigit (rev name)"
  have "?d \<noteq> []" using assms by (auto simp: dropWhile_eq_Nil_conv)
  then obtain c r where d: "?d = c # r" by (cases ?d) auto
  then have nc: "\<not> isdigit c" by (metis hd_dropWhile list.sel(1) list.distinct(1))
  have "rev name = ?t @ c # r" using d by (metis takeWhile_dropWhile_id)
  then have "name = rev r @ c # rev ?t"
    by (metis rev_append rev.simps(2) rev_rev_ident append_Cons append_Nil append_assoc)
  then show ?thesis using nc that by (simp add: trailing_digits_def)
qed

lemma trailing_digits_isdigit: "\<forall>d\<in>set (trailing_digits name). isdigit d"
  by (auto simp: trailing_digits_def dest: set_takeWhileD)

text \<open>
  Claim C2, as the specification states it, fails: the file named \<^verbatim>\<open>5\<close> has the
  trailing digit run 5, and \<open>parse_segment_number\<close> returns 0 for it (the index falls
  below 0 inside the loop, which returns 0).
\<close>

theorem parse_segment_number_counterexample:
  "spec_segment_ordinal ''5'' = 5 \<and> parse_segment_number ''5'' = Inr 0 \<and>
   parse_segment_number ''5'' \<noteq> Inr (word_of_nat (spec_segment_ordinal ''5''))"
  by (simp add: spec_segment_ordinal_def trailing_digits_def decimal_value_def
      parse_segment_number_def isdigit_def)

text \<open>
  Claim C2, amended.  A name made of digits only has ordinal 0.  A name with a
  character that is not a digit has the value of its trailing run of decimal digits as
  ordinal (0 when it ends in no digit), as long as an \<open>int\<close> holds that value.
\<close>

theorem parse_segment_number_amended:
  "(filename \<noteq> [] \<and> (\<forall>c\<in>set filename. isdigit c) \<longrightarrow> parse_segment_number filename = Inr 0) \<and>
   ((\<exists>c\<in>set filename. \<not> isdigit c) \<and> spec_segment_ordinal filename < 2 ^ 31 \<longrightarrow>
      parse_segment_number filename = Inr (word_of_nat (spec_segment_ordinal filename)))"
proof (intro conjI impI)
  assume a: "filename \<noteq> [] \<and> (\<forall>c\<in>set filename. isdigit c)"
  then have "skip_digits filename (length filename - 1) = None"
    by (intro skip_digits_all_digits)
      (auto simp: length_greater_0_conv [symmetric] simp del: length_greater_0_conv)
  with a show "parse_segment_number filename = Inr 0"
    by (simp add: parse_segment_number_def)
next
  assume a: "(\<exists>c\<in>set filename. \<not> isdigit c) \<and> spec_segment_ordinal filename < 2 ^ 31"
  then obtain pre c where f: "filename = pre @ c # trailing_digits filename" and c: "\<not> isdigit c"
    using split_trailing_digits by blast
  define ds where "ds = trailing_digits filename"
  have dd: "\<forall>d\<in>set ds. isdigit d" by (simp add: ds_def trailing_digits_isdigit)
  have f': "filename = pre @ c # ds" using f by (simp add: ds_def)
  have len: "length filename - 1 = length pre + length ds" by (subst f') simp
  have "skip_digits filename (length pre + length ds) = Some (length pre)"
    by (subst f') (rule skip_digits_run [OF c dd])
  then have sk: "skip_digits filename (length filename - Suc 0) = Some (length pre)"
    using len by simp
  have dr: "drop (Suc (length pre)) filename = ds" by (subst f') simp
  have "atoi ds = Inr (int (decimal_value ds))"
    using a dd by (intro atoi_digits) (simp_all add: spec_segment_ordinal_def ds_def)
  moreover have "filename \<noteq> []" using a by auto
  ultimately show "parse_segment_number filename = Inr (word_of_nat (spec_segment_ordinal filename))"
    by (simp add: parse_segment_number_def sk dr spec_segment_ordinal_def ds_def [symmetric])
qed

text \<open>
  The first segment \<^verbatim>\<open>16384\<close> has ordinal 0, \<^verbatim>\<open>16384.5\<close> has ordinal 5 and
  \<^verbatim>\<open>16384_fsm\<close>, which ends in no digit, has ordinal 0.
\<close>

theorem parse_segment_number_amended_witness:
  "''16384'' \<noteq> [] \<and> list_all isdigit ''16384'' \<and> parse_segment_number ''16384'' = Inr 0 \<and>
   (\<exists>c\<in>set ''16384.5''. \<not> isdigit c) \<and> spec_segment_ordinal ''16384.5'' < 2 ^ 31 \<and>
   parse_segment_number ''16384.5'' = Inr 5 \<and>
   (\<exists>c\<in>set ''16384_fsm''. \<not> isdigit c) \<and> spec_segment_ordinal ''16384_fsm'' < 2 ^ 31 \<and>
   parse_segment_number ''16384_fsm'' = Inr 0"
proof -
  have d: "\<forall>c\<in>set ''16384''. isdigit c" by (simp add: isdigit_def)
  have n5: "\<exists>c\<in>set ''16384.5''. \<not> isdigit c" by (simp add: isdigit_def)
  have v5: "spec_segment_ordinal ''16384.5'' = 5"
    by (simp add: spec_segment_ordinal_def trailing_digits_def decimal_value_def isdigit_def)
  have nf: "\<exists>c\<in>set ''16384_fsm''. \<not> isdigit c" by (simp add: isdigit_def)
  have vf: "spec_segment_ordinal ''16384_fsm'' = 0"
    by (simp add: spec_segment_ordinal_def trailing_digits_def decimal_value_def isdigit_def)
  show ?thesis
    using parse_segment_number_amended [of "''16384''"]
      parse_segment_number_amended [of "''16384.5''"]
      parse_segment_number_amended [of "''16384_fsm''"] d n5 nf
    by (simp add: v5 vf list_all_iff)
qed

section \<open>The absolute block number\<close>

lemma unat_absolute:
  "unat (r * ordinal + i :: 32 word) = (unat ordinal * unat r + unat i) mod 2 ^ 32"
  by (simp add: unat_word_ariths mod_simps mult.commute)

lemma segmentSize_div:
  assumes "0 < BLCKSZ cfg" "unat (RELSEG_SIZE cfg) * BLCKSZ cfg < 2 ^ 31"
  shows "unat (segmentSize cfg) div BLCKSZ cfg = unat (RELSEG_SIZE cfg)"
proof (cases "RELSEG_SIZE cfg = 0")
  case True
  then show ?thesis by (simp add: segmentSize_def)
next
  case False
  then have "0 < unat (RELSEG_SIZE cfg)" by (simp add: unat_gt_0)
  then have "BLCKSZ cfg \<le> unat (RELSEG_SIZE cfg) * BLCKSZ cfg" by simp
  also have "\<dots> < 2 ^ 31" by (rule assms(2))
  also have "(2::nat) ^ 31 < 2 ^ 32" by simp
  finally have b: "BLCKSZ cfg < 2 ^ 32" .
  have p: "unat (RELSEG_SIZE cfg) * BLCKSZ cfg < 2 ^ 32"
    using assms(2) by simp
  have "unat (segmentSize cfg) = unat (RELSEG_SIZE cfg) * BLCKSZ cfg"
    using b p by (simp add: segmentSize_def unat_word_ariths unat_of_nat)
  then show ?thesis using assms by simp
qed

text \<open>
  Claim C3, as the specification states it, fails at its own example: page 3 of the
  file named \<^verbatim>\<open>5\<close> is verified at block 3, not at block 655363.
\<close>

theorem absolute_blkno_counterexample:
  "absolute_blkno example_config ''5'' 3 = Inr 3 \<and>
   absolute_blkno example_config ''5'' 3 \<noteq> Inr 655363"
  by (simp add: absolute_blkno_def example_config_def parse_segment_number_def isdigit_def)

text \<open>
  Claim C3, amended.  With \<open>ordinal\<close> the result of \<open>parse_segment_number\<close> on the file
  name, page \<open>i\<close> of the file is verified against block
  \<open>ordinal * RELSEG_SIZE + i\<close> modulo \<open>2 ^ 32\<close>, where \<open>RELSEG_SIZE\<close> is the segment
  size in bytes divided by the page size.
\<close>

theorem absolute_blkno_formula:
  assumes "parse_segment_number filename = Inr ordinal"
  shows "absolute_blkno cfg filename i = Inr (RELSEG_SIZE cfg * ordinal + i) \<and>
         unat (RELSEG_SIZE cfg * ordinal + i) =
           (unat ordinal * unat (RELSEG_SIZE cfg) + unat i) mod 2 ^ 32 \<and>
         (0 < BLCKSZ cfg \<and> unat (RELSEG_SIZE cfg) * BLCKSZ cfg < 2 ^ 31 \<longrightarrow>
            unat (segmentSize cfg) div BLCKSZ cfg = unat (RELSEG_SIZE cfg)) \<and>
         is_page_corrupted cfg page i filename =
           Inr (pd_checksum cfg page \<noteq> 0 \<and>
                pd_checksum cfg page \<noteq> pg_checksum_page cfg page (RELSEG_SIZE cfg * ordinal + i))"
  using assms
  by (simp add: absolute_blkno_eq unat_absolute segmentSize_div is_page_corrupted_eq)

text \<open>Page 3 of \<^verbatim>\<open>16384.5\<close> is verified at block 655363.\<close>

theorem absolute_blkno_formula_witness:
  "parse_segment_number ''16384.5'' = Inr 5 \<and>
   0 < BLCKSZ example_config \<and>
   unat (RELSEG_SIZE example_config) * BLCKSZ example_config < 2 ^ 31 \<and>
   absolute_blkno example_config ''16384.5'' 3 = Inr 655363 \<and>
   unat (segmentSize example_config) div BLCKSZ example_config = 131072"
proof -
  have p: "parse_segment_number ''16384.5'' = Inr 5"
    by (simp add: parse_segment_number_def atoi_def isdigit_def isspace_def)
  show ?thesis
    using absolute_blkno_formula [OF p, of example_config 3] p
    by (simp add: example_config_def)
qed

section \<open>Scanning a segment file\<close>

lemma strstr_prefix: "prefix needle hay \<Longrightarrow> strstr hay needle"
  by (cases hay) auto

lemma strstr_append: "strstr hay needle \<Longrightarrow> strstr (ps @ hay) needle"
  by (induction ps) auto

lemma strstr_sublist: "strstr (ps @ needle @ ss) needle"
  by (intro strstr_append strstr_prefix) simp

lemma scan_entries_regular:
  "lstat fs cwd d_name = Some S_IFREG \<Longrightarrow> scan_segmentfile cfg fs cwd d_name = Inr n \<Longrightarrow>
   scan_entries fuel cfg fs dirpath (d_name # rest) statbuf found cwd =
     scan_entries fuel cfg fs dirpath rest (Some S_IFREG) (found + n) cwd"
  by (simp add: S_ISDIR_def S_ISREG_def)

lemma read_pages_short:
  assumes "\<forall>p\<in>set pages. length p = BLCKSZ cfg" "0 < length short" "length short < BLCKSZ cfg"
  shows "read_pages cfg filename (map ReadBytes pages @ ReadBytes short # rest) blkno corrupted =
         (case read_pages cfg filename (map ReadBytes pages) blkno corrupted of
            Inl e \<Rightarrow> Inl e | Inr n \<Rightarrow> Inr (n + 1))"
  using assms
proof (induction pages arbitrary: blkno corrupted)
  case Nil
  then show ?case by simp
next
  case (Cons p pages)
  then show ?case by (simp split: sum.splits)
qed

lemma read_pages_empty:
  assumes "\<forall>p\<in>set pages. length p = BLCKSZ cfg" "0 < BLCKSZ cfg"
  shows "read_pages cfg filename (map ReadBytes pages @ ReadBytes [] # rest) blkno corrupted =
         read_pages cfg filename (map ReadBytes pages) blkno corrupted"
  using assms
proof (induction pages arbitrary: blkno corrupted)
  case Nil
  then show ?case by simp
next
  case (Cons p pages)
  then show ?case by (simp split: sum.splits)
qed

lemma example_BLCKSZ: "BLCKSZ example_config = 8192"
  by (simp add: example_config_def)

lemma example_page_length: "length (example_page lo hi) = 8192"
  by (simp add: example_page_def)

lemma example_first_segment: "absolute_blkno example_config ''16384'' 0 = Inr 0"
  by (simp add: absolute_blkno_def parse_segment_number_def isdigit_def)

text \<open>
  Claim C4 says that free-space-map and visibility-map files are skipped, as the
  README of the repository does.  \<open>scan_segmentfile\<close> skips only names that contain
  \<^verbatim>\<open>pg_internal.init\<close>: a free-space-map file and a visibility-map file of one byte
  each are opened and read, and each counts 1.
\<close>

theorem fsm_and_vm_files_are_scanned:
  "scan_segmentfile example_config files_tree [''base'', ''1''] ''16384_fsm'' = Inr 1 \<and>
   scan_segmentfile example_config files_tree [''base'', ''1''] ''16384_vm'' = Inr 1"
  by code_simp

text \<open>
  Claim C5 says that a segment file counts exactly 1 when its \<open>open\<close> or a \<open>read\<close>
  on it fails.  \<open>scan_segmentfile\<close> returns 1 for the file \<^verbatim>\<open>16386\<close>, which cannot be
  opened, and counts the short read of \<^verbatim>\<open>16387\<close>; but a \<open>read\<close> that fails returns
  -1, which is neither \<open>BLCKSZ\<close> nor greater than 0: the file \<^verbatim>\<open>16385\<close>, whose first
  read fails, counts 0, and the loop of \<open>scan_directory\<close> goes on with nothing added
  for it.
\<close>

theorem read_failure_counts_zero:
  "open_rdonly files_tree [''base'', ''1''] ''16385'' = Some [ReadError] \<and>
   scan_segmentfile example_config files_tree [''base'', ''1''] ''16385'' = Inr 0 \<and>
   open_rdonly files_tree [''base'', ''1''] ''16386'' = None \<and>
   scan_segmentfile example_config files_tree [''base'', ''1''] ''16386'' = Inr 1 \<and>
   scan_segmentfile example_config files_tree [''base'', ''1''] ''16387'' = Inr 1 \<and>
   scan_entries 0 example_config files_tree ''/base/1'' [''16385'', ''16387''] None 0
     [''base'', ''1''] = Inr (1, [''base'', ''1''])"
  by code_simp

text \<open>
  Claim C6.  After any number of full pages, a read of more than 0 and fewer than
  \<open>BLCKSZ\<close> bytes adds exactly 1 to the count the full pages gave, whatever its bytes
  are and whatever reads would follow; a read of 0 bytes adds nothing and ends the
  scan as well.  So a file that opens and gives full pages and then a short read
  counts what its full pages count, plus 1.
\<close>

theorem short_read_counts_one_and_stops:
  assumes "\<forall>p\<in>set pages. length p = BLCKSZ cfg" and "0 < BLCKSZ cfg"
  shows "(0 < length short \<and> length short < BLCKSZ cfg \<longrightarrow>
          read_pages cfg filename (map ReadBytes pages @ ReadBytes short # rest) blkno corrupted =
            (case read_pages cfg filename (map ReadBytes pages) blkno corrupted of
               Inl e \<Rightarrow> Inl e | Inr n \<Rightarrow> Inr (n + 1))) \<and>
         read_pages cfg filename (map ReadBytes pages @ ReadBytes [] # rest) blkno corrupted =
           read_pages cfg filename (map ReadBytes pages) blkno corrupted \<and>
         (0 < length short \<and> length short < BLCKSZ cfg \<and>
          \<not> strstr filename ''pg_internal.init'' \<and>
          open_rdonly fs cwd filename = Some (map ReadBytes pages @ ReadBytes short # rest) \<longrightarrow>
          scan_segmentfile cfg fs cwd filename =
            (case read_pages cfg filename (map ReadBytes pages) 0 0 of
               Inl e \<Rightarrow> Inl e | Inr n \<Rightarrow> Inr (n + 1)))"
  using assms by (simp add: read_pages_short read_pages_empty scan_segmentfile_def)

text \<open>
  One page with the checksum field unset, then a read of 8191 bytes: the count is 1,
  and the page with a wrong checksum that would follow is never read.  With a read of
  0 bytes in its place the count is 0.
\<close>

theorem short_read_counts_one_and_stops_witness:
  "0 < BLCKSZ example_config \<and>
   length (replicate 8191 (0::byte)) = BLCKSZ example_config - 1 \<and>
   read_pages example_config ''16384'' [ReadBytes (example_page 0 0)] 0 0 = Inr 0 \<and>
   read_pages example_config ''16384''
     [ReadBytes (example_page 0 0), ReadBytes (replicate 8191 0), ReadBytes (example_page 4 0)] 0 0
     = Inr 1 \<and>
   read_pages example_config ''16384''
     [ReadBytes (example_page 0 0), ReadBytes [], ReadBytes (example_page 4 0)] 0 0 = Inr 0 \<and>
   scan_segmentfile example_config short_read_tree [''base'', ''1''] ''16384'' = Inr 1"
proof -
  have p: "\<forall>p\<in>set [example_page 0 0]. length p = BLCKSZ example_config"
    by (simp add: example_BLCKSZ example_page_length)
  have b: "0 < BLCKSZ example_config" by (simp add: example_BLCKSZ)
  have full: "read_pages example_config ''16384'' [ReadBytes (example_page 0 0)] 0 0 = Inr 0"
    by (simp add: example_BLCKSZ example_page_length
        is_page_corrupted_eq [OF example_first_segment] example_pd_checksum)
  have n: "\<not> strstr ''16384'' ''pg_internal.init''" by code_simp
  have d: "open_rdonly short_read_tree [''base'', ''1''] ''16384'' =
      Some (map ReadBytes [example_page 0 0] @ ReadBytes (replicate 8191 0) #
            [ReadBytes (example_page 4 0)])"
    by (simp add: open_rdonly_def resolve_def short_read_tree_def)
  show ?thesis
    using short_read_counts_one_and_stops [OF p b, of "replicate 8191 0" "''16384''"
        "[ReadBytes (example_page 4 0)]" 0 0 short_read_tree "[''base'', ''1'']"] full n d
    by (simp add: example_BLCKSZ)
qed

text \<open>
  Claim C9.  A file whose name contains \<^verbatim>\<open>pg_internal.init\<close> anywhere counts 0 whatever
  the file system holds under that name (the file is never opened), and the loop of
  \<open>scan_directory\<close> goes on with the count unchanged.
\<close>

theorem pg_internal_init_substring_skipped:
  assumes "filename = ps @ ''pg_internal.init'' @ ss"
  shows "scan_segmentfile cfg fs cwd filename = Inr 0 \<and>
         (lstat fs cwd filename = Some S_IFREG \<longrightarrow>
            scan_entries fuel cfg fs dirpath (filename # rest) statbuf found cwd =
              scan_entries fuel cfg fs dirpath rest (Some S_IFREG) found cwd)"
proof -
  have "strstr filename ''pg_internal.init''"
    unfolding assms by (rule strstr_sublist)
  then have "scan_segmentfile cfg fs cwd filename = Inr 0"
    by (simp add: scan_segmentfile_def)
  then show ?thesis
    using scan_entries_regular [of fs cwd filename cfg 0 fuel dirpath rest statbuf found]
    by simp
qed

text \<open>
  \<^verbatim>\<open>pg_internal.init.bak\<close>, which could not even be opened, and \<^verbatim>\<open>mypg_internal.init2\<close>
  count 0.
\<close>

theorem pg_internal_init_substring_skipped_witness:
  "scan_segmentfile example_config files_tree [''base'', ''1''] ''pg_internal.init.bak'' = Inr 0 \<and>
   scan_segmentfile example_config files_tree [''base'', ''1''] ''mypg_internal.init2'' = Inr 0 \<and>
   lstat files_tree [''base'', ''1''] ''pg_internal.init.bak'' = Some S_IFREG \<and>
   scan_entries 0 example_config files_tree ''/base/1'' [''pg_internal.init.bak''] None 0
     [''base'', ''1''] = Inr (0, [''base'', ''1''])"
proof -
  have n1: "''pg_internal.init.bak'' = [] @ ''pg_internal.init'' @ ''.bak''" by simp
  have n2: "''mypg_internal.init2'' = ''my'' @ ''pg_internal.init'' @ ''2''" by simp
  have l: "lstat files_tree [''base'', ''1''] ''pg_internal.init.bak'' = Some S_IFREG" by code_simp
  have r: "scan_entries 0 example_config files_tree ''/base/1'' [] (Some S_IFREG) 0 [''base'', ''1'']
     = Inr (0, [''base'', ''1''])" by simp
  show ?thesis
    using pg_internal_init_substring_skipped [OF n1, of example_config files_tree
        "[''base'', ''1'']" 0 "''/base/1''" "[]" None 0]
      pg_internal_init_substring_skipped [OF n2, of example_config files_tree "[''base'', ''1'']"]
      l r
    by (simp only: simp_thms)
qed

section \<open>Walking the directory tree\<close>

lemma opendir_chdir:
  assumes "opendir fs cwd dirpath = Some names" and "chdir fs cwd dirpath = Some p"
  shows "\<exists>es. lookup fs p = Some (Directory True True es) \<and>
              names = ''.'' # ''..'' # map fst es"
proof -
  from assms(1) obtain readable searchable es where
    r: "resolve fs cwd dirpath = Some (Directory readable searchable es)"
    and l: "readable" and n: "names = ''.'' # ''..'' # map fst es"
    by (auto simp: opendir_def split: option.splits node.splits if_splits)
  from r have ne: "dirpath \<noteq> []"
    by (auto simp: resolve_def split: if_splits)
  with r obtain q where
    w: "walk fs (if hd dirpath = CHR ''/'' then [] else cwd) (split_slash dirpath) = Some q"
    and lk: "lookup fs q = Some (Directory readable searchable es)"
    by (auto simp: resolve_def split: option.splits)
  have "searchable \<and> p = q"
    using assms(2) ne w lk by (simp add: chdir_def split: if_splits)
  then show ?thesis using lk l n by simp
qed

lemma scan_entries_unfold:
  "scan_entries fuel cfg fs dirpath (d_name # rest) statbuf found cwd =
     (case (case lstat fs cwd d_name of None \<Rightarrow> statbuf | Some m \<Rightarrow> Some m) of
        None \<Rightarrow> Inl UndefinedBehaviour
      | Some st_mode \<Rightarrow>
          if st_mode = S_IFDIR then
            (if d_name = ''.'' \<or> d_name = ''..''
             then scan_entries fuel cfg fs dirpath rest (Some st_mode) found cwd
             else case scan_directory fuel cfg fs cwd
                         (snprintf_path MAX_DIR_LENGTH dirpath d_name) of
                    Inl e \<Rightarrow> Inl e
                  | Inr (n, cwd') \<Rightarrow>
                      scan_entries fuel cfg fs dirpath rest (Some st_mode) (found + n) cwd')
          else if st_mode = S_IFREG then
            (case scan_segmentfile cfg fs cwd d_name of
               Inl e \<Rightarrow> Inl e
             | Inr n \<Rightarrow> scan_entries fuel cfg fs dirpath rest (Some st_mode) (found + n) cwd)
          else scan_entries fuel cfg fs dirpath rest (Some st_mode) found cwd)"
proof -
  define sb where "sb = (case lstat fs cwd d_name of None \<Rightarrow> statbuf | Some m \<Rightarrow> Some m)"
  show ?thesis
    unfolding scan_entries.simps(2) Let_def S_ISDIR_def S_ISREG_def sb_def [symmetric]
    by (cases sb) (simp_all cong: sum.case_cong if_cong)
qed

text \<open>
  An entry that is \<^verbatim>\<open>.\<close>, \<^verbatim>\<open>..\<close> or anything but a directory leaves the working
  directory of the loop as it is.
\<close>

lemma scan_entries_step_same_cwd:
  assumes "d_name = ''.'' \<or> d_name = ''..'' \<or> (\<exists>m. lstat fs cwd d_name = Some m \<and> m \<noteq> S_IFDIR)"
    and "scan_entries fuel cfg fs dirpath (d_name # rest) statbuf found cwd = Inr r"
  shows "\<exists>statbuf' found'. scan_entries fuel cfg fs dirpath rest statbuf' found' cwd = Inr r"
proof -
  define sb where "sb = (case lstat fs cwd d_name of None \<Rightarrow> statbuf | Some m \<Rightarrow> Some m)"
  note u = assms(2) [unfolded scan_entries_unfold, folded sb_def]
  show ?thesis
  proof (cases sb)
    case None
    with u show ?thesis by simp
  next
    case (Some m)
    show ?thesis
    proof (cases "m = S_IFDIR")
      case True
      have "d_name = ''.'' \<or> d_name = ''..''"
        using assms(1) Some True by (auto simp: sb_def)
      with u Some True show ?thesis by auto
    next
      case False
      show ?thesis
      proof (cases "m = S_IFREG")
        case True
        with u Some show ?thesis
          by (cases "scan_segmentfile cfg fs cwd d_name") auto
      next
        case False
        with u Some \<open>m \<noteq> S_IFDIR\<close> show ?thesis by auto
      qed
    qed
  qed
qed

lemma scan_entries_leaf_cwd:
  "\<forall>name\<in>set names. name = ''.'' \<or> name = ''..'' \<or>
      (\<exists>m. lstat fs cwd name = Some m \<and> m \<noteq> S_IFDIR) \<Longrightarrow>
   scan_entries fuel cfg fs dirpath names statbuf found cwd = Inr (n, cwd') \<Longrightarrow> cwd' = cwd"
proof (induction names arbitrary: statbuf found)
  case Nil
  then show ?case by simp
next
  case (Cons d_name rest)
  obtain statbuf' found' where
    "scan_entries fuel cfg fs dirpath rest statbuf' found' cwd = Inr (n, cwd')"
    using scan_entries_step_same_cwd [OF _ Cons.prems(2)] Cons.prems(1) by auto
  then show ?case using Cons.IH Cons.prems(1) by auto
qed

text \<open>
  Claim C7 says that the walk returns the sum of what the files below the directory
  contribute, in whatever order the entries are listed.  In \<^verbatim>\<open>/base\<close> the file \<^verbatim>\<open>x\<close>
  contributes 1.  Listed after the directory \<^verbatim>\<open>1\<close>, it is looked up in \<^verbatim>\<open>/base/1\<close>,
  where the walk has left the working directory: \<open>lstat\<close> fails, \<open>statbuf\<close> still says
  directory, \<^verbatim>\<open>/base/x\<close> cannot be opened as one, and the walk returns 0.  Listed
  before \<^verbatim>\<open>1\<close>, it is scanned and the walk returns 1.  In the layout of a PostgreSQL
  data directory the same happens when a relation file of one database has the name
  of the next database directory: the only file that contributes, \<^verbatim>\<open>/base/1/2\<close>, is
  counted twice, and \<^verbatim>\<open>/base/2\<close> is never walked; in the other order it is counted once.
\<close>

theorem walk_depends_on_listing_order:
  "scan_directory 2 example_config subdir_first_tree [] ''/base'' = Inr (0, [''base'', ''1'']) \<and>
   scan_directory 2 example_config file_first_tree [] ''/base'' = Inr (1, [''base'', ''1'']) \<and>
   scan_segmentfile example_config subdir_first_tree [''base''] ''x'' = Inr 1 \<and>
   scan_directory 2 example_config oid_clash_tree [] ''/base'' = Inr (2, [''base'', ''1'']) \<and>
   scan_directory 2 example_config oid_clash_tree_reversed [] ''/base'' = Inr (1, [''base'', ''1'']) \<and>
   scan_segmentfile example_config oid_clash_tree [''base'', ''1''] ''2'' = Inr 1 \<and>
   scan_segmentfile example_config oid_clash_tree [''base'', ''2''] ''16384'' = Inr 0"
  by code_simp

text \<open>
  Claim C8 says that a subdirectory whose listing cannot be opened contributes 0.
  It does when the loop sees it as a directory: alone in the listing of \<^verbatim>\<open>/base\<close>,
  \<^verbatim>\<open>locked\<close> adds nothing.  Listed after the directories \<^verbatim>\<open>1\<close> and \<^verbatim>\<open>2\<close>, it is looked
  up in \<^verbatim>\<open>/base/1\<close>, where the walk has left the working directory: \<open>lstat\<close> fails,
  \<open>statbuf\<close> still holds the regular file \<^verbatim>\<open>/base/1/2\<close> that the name \<^verbatim>\<open>2\<close> found
  there, \<open>open\<close> fails, and the directory counts 1.  Without \<^verbatim>\<open>locked\<close> the same tree
  counts 0.
\<close>

theorem unlistable_directory_counts_one:
  "lstat locked_last_tree [''base''] ''locked'' = Some S_IFDIR \<and>
   opendir locked_last_tree [''base''] (snprintf_path MAX_DIR_LENGTH ''/base'' ''locked'') = None \<and>
   scan_entries 1 example_config locked_last_tree ''/base'' [''locked''] None 0 [''base'']
     = Inr (0, [''base'']) \<and>
   lstat locked_last_tree [''base'', ''1''] ''locked'' = None \<and>
   scan_directory 2 example_config locked_last_tree [] ''/base'' = Inr (1, [''base'', ''1'']) \<and>
   scan_directory 2 example_config locked_absent_tree [] ''/base'' = Inr (0, [''base'', ''1''])"
  by code_simp

text \<open>
  Claim C10, as stated, fails twice.  The directory \<^verbatim>\<open>/base/ro\<close> opens for listing,
  but \<open>chdir\<close> into it fails and the working directory stays \<^verbatim>\<open>/base\<close>: it does not
  become every directory that is opened.  And after the walk of \<^verbatim>\<open>/base/1\<close>, which has a
  directory \<^verbatim>\<open>a\<close> of its own, the working directory is \<^verbatim>\<open>/base/1/a\<close>, not \<^verbatim>\<open>/base/1\<close>.
\<close>

theorem chdir_failure_counterexample:
  "opendir read_only_tree [''base''] ''/base/ro'' = Some [''.'', ''..'', ''16384''] \<and>
   chdir read_only_tree [''base''] ''/base/ro'' = None \<and>
   scan_directory 2 example_config read_only_tree [''base''] ''/base/ro'' = Inr (0, [''base'']) \<and>
   opendir nested_tree [''base''] ''/base/1'' = Some [''.'', ''..'', ''a''] \<and>
   chdir nested_tree [''base''] ''/base/1'' = Some [''base'', ''1''] \<and>
   scan_directory 2 example_config nested_tree [''base''] ''/base/1''
     = Inr (0, [''base'', ''1'', ''a''])"
  by code_simp

text \<open>
  Claim C10, amended.  When the loop of \<open>scan_directory\<close> takes an entry for a
  directory (by \<open>lstat\<close>, or by the \<open>statbuf\<close> left from an earlier entry when \<open>lstat\<close>
  fails) and the subdirectory opens, the recursive call calls \<open>chdir\<close> on it and drops
  the result: its loop runs in the subdirectory when \<open>chdir\<close> succeeds, and in the
  old working directory when it fails.  Nothing changes the working directory back:
  the call returns the one its loop ended in, and the parent's loop handles the
  entries that remain (its \<open>lstat\<close> and \<open>open\<close> of their names) there.  For a
  subdirectory whose entries are all found and of which none but \<^verbatim>\<open>.\<close> and \<^verbatim>\<open>..\<close> is a
  directory, that is the directory the subdirectory's loop ran in.
\<close>

theorem scan_directory_never_restores_cwd:
  assumes "(case lstat fs cwd d_name of None \<Rightarrow> statbuf | Some m \<Rightarrow> Some m) = Some S_IFDIR"
    and "d_name \<noteq> ''.''" and "d_name \<noteq> ''..''"
    and "opendir fs cwd (snprintf_path MAX_DIR_LENGTH dirpath d_name) = Some names"
    and "scan_directory (Suc fuel) cfg fs cwd (snprintf_path MAX_DIR_LENGTH dirpath d_name)
           = Inr (n, cwd')"
  shows "scan_directory (Suc fuel) cfg fs cwd (snprintf_path MAX_DIR_LENGTH dirpath d_name) =
           scan_entries fuel cfg fs (snprintf_path MAX_DIR_LENGTH dirpath d_name) names None 0
             (case chdir fs cwd (snprintf_path MAX_DIR_LENGTH dirpath d_name) of
                None \<Rightarrow> cwd | Some p \<Rightarrow> p) \<and>
         (\<forall>p. chdir fs cwd (snprintf_path MAX_DIR_LENGTH dirpath d_name) = Some p \<longrightarrow>
            (\<exists>es. lookup fs p = Some (Directory True True es) \<and>
                  names = ''.'' # ''..'' # map fst es)) \<and>
         scan_entries (Suc fuel) cfg fs dirpath (d_name # rest) statbuf found cwd =
           scan_entries (Suc fuel) cfg fs dirpath rest (Some S_IFDIR) (found + n) cwd' \<and>
         ((\<forall>name\<in>set names. name = ''.'' \<or> name = ''..'' \<or>
             (\<exists>m. lstat fs (case chdir fs cwd (snprintf_path MAX_DIR_LENGTH dirpath d_name) of
                               None \<Rightarrow> cwd | Some p \<Rightarrow> p) name = Some m \<and>
                  m \<noteq> S_IFDIR)) \<longrightarrow>
          cwd' = (case chdir fs cwd (snprintf_path MAX_DIR_LENGTH dirpath d_name) of
                    None \<Rightarrow> cwd | Some p \<Rightarrow> p))"
proof -
  let ?sub = "snprintf_path MAX_DIR_LENGTH dirpath d_name"
  let ?in = "case chdir fs cwd ?sub of None \<Rightarrow> cwd | Some p \<Rightarrow> p"
  have o: "\<forall>p. chdir fs cwd ?sub = Some p \<longrightarrow>
             (\<exists>es. lookup fs p = Some (Directory True True es) \<and>
                   names = ''.'' # ''..'' # map fst es)"
    using opendir_chdir [OF assms(4)] by blast
  have s: "scan_directory (Suc fuel) cfg fs cwd ?sub =
           scan_entries fuel cfg fs ?sub names None 0 ?in"
    using assms(4) by simp
  then have e: "scan_entries fuel cfg fs ?sub names None 0 ?in = Inr (n, cwd')"
    using assms(5) by simp
  have c: "cwd' = ?in"
    if "\<forall>name\<in>set names. name = ''.'' \<or> name = ''..'' \<or>
          (\<exists>m. lstat fs ?in name = Some m \<and> m \<noteq> S_IFDIR)"
    using that e by (rule scan_entries_leaf_cwd)
  have p: "scan_entries (Suc fuel) cfg fs dirpath (d_name # rest) statbuf found cwd =
        scan_entries (Suc fuel) cfg fs dirpath rest (Some S_IFDIR) (found + n) cwd'"
    unfolding scan_entries_unfold using assms(1,2,3,5) by simp
  from o s p c show ?thesis by blast
qed

text \<open>
  In \<^verbatim>\<open>/base\<close>, after the walk of the directory \<^verbatim>\<open>1\<close> the working directory is
  \<^verbatim>\<open>/base/1\<close>, and the file \<^verbatim>\<open>x\<close> of \<^verbatim>\<open>/base\<close>, listed next, is not found there.  In
  the other tree the walk of \<^verbatim>\<open>/base/2\<close> has left the working directory there; \<open>lstat\<close>
  of the next entry \<^verbatim>\<open>1\<close> fails, \<open>statbuf\<close> still says directory, \<^verbatim>\<open>/base/1\<close> is walked
  and the working directory is \<^verbatim>\<open>/base/1\<close> afterwards.
\<close>

theorem scan_directory_never_restores_cwd_witness:
  "lstat subdir_first_tree [''base''] ''1'' = Some S_IFDIR \<and>
   opendir subdir_first_tree [''base''] (snprintf_path MAX_DIR_LENGTH ''/base'' ''1'')
     = Some [''.'', ''..'', ''16384''] \<and>
   chdir subdir_first_tree [''base''] (snprintf_path MAX_DIR_LENGTH ''/base'' ''1'')
     = Some [''base'', ''1''] \<and>
   scan_directory (Suc 0) example_config subdir_first_tree [''base'']
     (snprintf_path MAX_DIR_LENGTH ''/base'' ''1'') = Inr (0, [''base'', ''1'']) \<and>
   lstat subdir_first_tree [''base''] ''x'' = Some S_IFREG \<and>
   lstat subdir_first_tree [''base'', ''1''] ''x'' = None \<and>
   scan_entries (Suc 0) example_config subdir_first_tree ''/base'' [''1'', ''x''] None 0 [''base'']
     = scan_entries (Suc 0) example_config subdir_first_tree ''/base'' [''x''] (Some S_IFDIR) (0 + 0)
         [''base'', ''1''] \<and>
   lstat oid_clash_tree_reversed [''base'', ''2''] ''1'' = None \<and>
   scan_directory (Suc 0) example_config oid_clash_tree_reversed [''base'', ''2'']
     (snprintf_path MAX_DIR_LENGTH ''/base'' ''1'') = Inr (1, [''base'', ''1'']) \<and>
   scan_entries (Suc 0) example_config oid_clash_tree_reversed ''/base'' [''1''] (Some S_IFDIR) 0
     [''base'', ''2''] = Inr (1, [''base'', ''1''])"
proof -
  let ?sub = "snprintf_path MAX_DIR_LENGTH ''/base'' ''1''"
  have h1: "lstat subdir_first_tree [''base''] ''1'' = Some S_IFDIR" by code_simp
  have h1': "(case lstat subdir_first_tree [''base''] ''1'' of None \<Rightarrow> None | Some m \<Rightarrow> Some m)
      = Some S_IFDIR"
    by (simp add: h1)
  have h2: "''1'' \<noteq> ''.''" by simp
  have h3: "''1'' \<noteq> ''..''" by simp
  have h4: "opendir subdir_first_tree [''base''] ?sub = Some [''.'', ''..'', ''16384'']"
    by code_simp
  have c: "chdir subdir_first_tree [''base''] ?sub = Some [''base'', ''1'']" by code_simp
  have l: "lstat subdir_first_tree [''base'', ''1''] ''16384'' = Some S_IFREG" by code_simp
  have h5: "\<forall>name\<in>set [''.'', ''..'', ''16384'']. name = ''.'' \<or> name = ''..'' \<or>
      (\<exists>m. lstat subdir_first_tree
             (case chdir subdir_first_tree [''base''] ?sub of None \<Rightarrow> [''base''] | Some p \<Rightarrow> p)
             name = Some m \<and> m \<noteq> S_IFDIR)"
    unfolding c using l by simp
  have h6: "scan_directory (Suc 0) example_config subdir_first_tree [''base''] ?sub
      = Inr (0, [''base'', ''1''])"
    by code_simp
  have x1: "lstat subdir_first_tree [''base''] ''x'' = Some S_IFREG" by code_simp
  have x2: "lstat subdir_first_tree [''base'', ''1''] ''x'' = None" by code_simp
  have g1: "lstat oid_clash_tree_reversed [''base'', ''2''] ''1'' = None" by code_simp
  have g1': "(case lstat oid_clash_tree_reversed [''base'', ''2''] ''1'' of
               None \<Rightarrow> Some S_IFDIR | Some m \<Rightarrow> Some m) = Some S_IFDIR"
    by (simp add: g1)
  have g4: "opendir oid_clash_tree_reversed [''base'', ''2''] ?sub = Some [''.'', ''..'', ''2'']"
    by code_simp
  have g6: "scan_directory (Suc 0) example_config oid_clash_tree_reversed [''base'', ''2''] ?sub
      = Inr (1, [''base'', ''1''])"
    by code_simp
  have r: "scan_entries (Suc 0) example_config oid_clash_tree_reversed ''/base'' [] (Some S_IFDIR)
      (0 + 1) [''base'', ''1''] = Inr (1, [''base'', ''1''])"
    by simp
  show ?thesis
    using scan_directory_never_restores_cwd [OF h1' h2 h3 h4 h6,
        where rest = "[''x'']" and found = 0]
      scan_directory_never_restores_cwd [OF g1' h2 h3 g4 g6,
        where rest = "[]" and found = 0]
      h1 h4 h5 h6 c x1 x2 g1 g6 r
    by (simp only: simp_thms)
qed

end
